theory Spec2Isabelle
  imports Complex_Main "HOL-Library.Word"
begin

section \<open>Strings, errors and the upstream network\<close>

text \<open>
  A JavaScript string is a sequence of 16-bit code units, and \<open>s.length\<close> counts them.
  \<open>js\<close> turns an Isabelle literal into such a string, one code unit per character.
\<close>

type_synonym jsstring = "16 word list"

definition js :: "string \<Rightarrow> jsstring" where
  "js s = map of_char s"

text \<open>
  The values thrown on the server. \<open>Error m\<close> is \<open>new Error(m)\<close> as the repository's own
  code throws it; the other four are thrown by the platform: \<open>SyntaxError\<close> by
  \<open>JSON.parse\<close> and \<open>response.json()\<close>, \<open>TypeError\<close> by a property read on \<open>null\<close> or a
  call of a missing method, \<open>AbortError\<close> by a \<open>fetch\<close> whose signal was aborted, and
  \<open>NetworkError m\<close> by a \<open>fetch\<close> that could not complete the exchange.
\<close>

datatype js_error =
    Error jsstring
  | SyntaxError
  | TypeError
  | AbortError
  | NetworkError jsstring

text \<open>
  A response, once the fetch has resolved: its status and its body text. The body is
  taken as received in full, so \<open>response.text()\<close> gives it and \<open>response.json()\<close>
  fails only when it is not JSON.
\<close>

record response =
  status :: nat
  body :: jsstring

text \<open>\<open>response.ok\<close> of the Fetch standard: the status is in the range 200 to 299.\<close>

definition ok :: "response \<Rightarrow> bool" where
  "ok r = (200 \<le> status r \<and> status r \<le> 299)"

text \<open>
  What the upstream does with one request: after \<open>latency\<close> milliseconds the promise of
  \<open>fetch\<close> settles, rejected with an error or resolved with a response (of any status).
  The network is a script giving the exchange of the k-th call made on it.
\<close>

datatype settled = Rejected js_error | Resolved response

record exchange =
  latency :: nat
  outcome :: settled

type_synonym network = "nat \<Rightarrow> exchange"

text \<open>
  The part of a request the two server versions differ in. \<open>PromptWithImage u\<close> is the
  user message made of the fixed instruction prompt and the image URL \<open>u\<close>; \<open>Plain t\<close>
  is a user message of the text \<open>t\<close> alone. The sampling temperature (0.3) and the
  constant headers are left out.
\<close>

datatype user_content = PromptWithImage jsstring | Plain jsstring

record request =
  url :: jsstring
  authorization :: jsstring
  model :: jsstring
  content :: user_content
  max_tokens :: nat

text \<open>The server's only state: the requests issued so far, oldest first.\<close>

type_synonym calls = "request list"

text \<open>
  \<open>fetch(url, options)\<close> without a signal (src/server/routes.ts): the call is recorded
  and settles as the upstream decides, however long that takes.
\<close>

definition fetch :: "network \<Rightarrow> request \<Rightarrow> calls \<Rightarrow> settled \<times> calls" where
  "fetch net rq sent = (outcome (net (length sent)), sent @ [rq])"

text \<open>
  \<open>fetch(url, {...options, signal})\<close> with \<open>setTimeout(() => controller.abort(), timeoutMs)\<close>
  armed just before: an exchange that has not settled when the timer fires is aborted
  and the promise rejects with an \<open>AbortError\<close>.
\<close>

definition settle :: "nat \<Rightarrow> exchange \<Rightarrow> settled" where
  "settle timeoutMs ex = (if latency ex < timeoutMs then outcome ex else Rejected AbortError)"

definition fetch_signal :: "network \<Rightarrow> request \<Rightarrow> nat \<Rightarrow> calls \<Rightarrow> settled \<times> calls" where
  "fetch_signal net rq timeoutMs sent = (settle timeoutMs (net (length sent)), sent @ [rq])"

subsection \<open>fetchWithRetry (src/unnamed/part_002, lines 15-40)\<close>

text \<open>
  The \<open>for (let attempt = 0; attempt <= retries; attempt++)\<close> loop, from the iteration
  \<open>attempt\<close> on: a resolved fetch returns its response, a rejected one is rethrown on the
  last iteration and otherwise leads to the next iteration. The code after the loop
  throws \<open>Error("Unreachable")\<close>.
\<close>

function fetchLoop ::
  "network \<Rightarrow> request \<Rightarrow> nat \<Rightarrow> nat \<Rightarrow> nat \<Rightarrow> calls \<Rightarrow> (js_error + response) \<times> calls" where
  "fetchLoop net rq retries timeoutMs attempt sent =
     (if attempt \<le> retries then
        (case fst (fetch_signal net rq timeoutMs sent) of
           Resolved resp \<Rightarrow> (Inr resp, snd (fetch_signal net rq timeoutMs sent))
         | Rejected err \<Rightarrow>
             if attempt = retries then (Inl err, snd (fetch_signal net rq timeoutMs sent))
             else fetchLoop net rq retries timeoutMs (attempt + 1)
                    (snd (fetch_signal net rq timeoutMs sent)))
      else (Inl (Error (js ''Unreachable'')), sent))"
  by pat_completeness auto
termination
  by (relation "measure (\<lambda>(net, rq, retries, timeoutMs, attempt, sent). Suc retries - attempt)") auto

declare fetchLoop.simps [simp del]

definition fetchWithRetry ::
  "network \<Rightarrow> request \<Rightarrow> nat \<Rightarrow> nat \<Rightarrow> calls \<Rightarrow> (js_error + response) \<times> calls" where
  "fetchWithRetry net rq retries timeoutMs sent = fetchLoop net rq retries timeoutMs 0 sent"

section \<open>JSON values and JSON.parse\<close>

text \<open>
  The values \<open>JSON.parse\<close> produces. A number keeps the text it was written with (no
  floating-point value is computed); an object keeps its members in the order of their
  first occurrence, a repeated key overwriting the earlier value as in ECMAScript. (The
  engine enumerates integer-like keys first; nothing here depends on the enumeration
  order.)
\<close>

datatype json =
    JNull
  | JBool bool
  | JNumber jsstring
  | JString jsstring
  | JArray "json list"
  | JObject "(jsstring \<times> json) list"

fun put :: "jsstring \<Rightarrow> json \<Rightarrow> (jsstring \<times> json) list \<Rightarrow> (jsstring \<times> json) list" where
  "put k v [] = [(k, v)]"
| "put k v ((k', v') # ms) = (if k' = k then (k, v) # ms else (k', v') # put k v ms)"

subsection \<open>Tokens\<close>

datatype token =
    TLBrace | TRBrace | TLBracket | TRBracket | TColon | TComma
  | TString jsstring
  | TNumber jsstring
  | TLiteral json

definition is_ws :: "16 word \<Rightarrow> bool" where
  "is_ws c = (c = 0x20 \<or> c = 0x09 \<or> c = 0x0A \<or> c = 0x0D)"

definition is_digit :: "16 word \<Rightarrow> bool" where
  "is_digit c = (of_char CHR ''0'' \<le> c \<and> c \<le> of_char CHR ''9'')"

definition is_number_char :: "16 word \<Rightarrow> bool" where
  "is_number_char c =
     (is_digit c \<or> c = of_char CHR ''-'' \<or> c = of_char CHR ''+'' \<or> c = of_char CHR ''.''
      \<or> c = of_char CHR ''e'' \<or> c = of_char CHR ''E'')"

definition is_lower :: "16 word \<Rightarrow> bool" where
  "is_lower c = (of_char CHR ''a'' \<le> c \<and> c \<le> of_char CHR ''z'')"

definition hex_value :: "16 word \<Rightarrow> 16 word option" where
  "hex_value c =
     (if is_digit c then Some (c - of_char CHR ''0'')
      else if of_char CHR ''a'' \<le> c \<and> c \<le> of_char CHR ''f'' then Some (c - of_char CHR ''a'' + 10)
      else if of_char CHR ''A'' \<le> c \<and> c \<le> of_char CHR ''F'' then Some (c - of_char CHR ''A'' + 10)
      else None)"

text \<open>
  The number grammar of JSON:
  \<open>-? (0 | [1-9][0-9]*) (. [0-9]+)? ([eE] [+-]? [0-9]+)?\<close>.
\<close>

definition strip_minus :: "jsstring \<Rightarrow> jsstring" where
  "strip_minus s = (case s of [] \<Rightarrow> [] | c # r \<Rightarrow> if c = of_char CHR ''-'' then r else s)"

definition strip_sign :: "jsstring \<Rightarrow> jsstring" where
  "strip_sign s =
     (case s of [] \<Rightarrow> []
      | c # r \<Rightarrow> if c = of_char CHR ''-'' \<or> c = of_char CHR ''+'' then r else s)"

definition valid_int_part :: "jsstring \<Rightarrow> bool" where
  "valid_int_part ds = (case ds of [] \<Rightarrow> False | d # r \<Rightarrow> d \<noteq> of_char CHR ''0'' \<or> r = [])"

definition valid_exponent :: "jsstring \<Rightarrow> bool" where
  "valid_exponent s =
     (case s of [] \<Rightarrow> True
      | c # r \<Rightarrow> (c = of_char CHR ''e'' \<or> c = of_char CHR ''E'')
                 \<and> strip_sign r \<noteq> [] \<and> list_all is_digit (strip_sign r))"

definition valid_fraction_exponent :: "jsstring \<Rightarrow> bool" where
  "valid_fraction_exponent s =
     (case s of [] \<Rightarrow> True
      | c # r \<Rightarrow>
          if c = of_char CHR ''.''
          then takeWhile is_digit r \<noteq> [] \<and> valid_exponent (dropWhile is_digit r)
          else valid_exponent s)"

definition valid_number :: "jsstring \<Rightarrow> bool" where
  "valid_number s =
     (valid_int_part (takeWhile is_digit (strip_minus s))
      \<and> valid_fraction_exponent (dropWhile is_digit (strip_minus s)))"

definition literal_value :: "jsstring \<Rightarrow> json option" where
  "literal_value w =
     (if w = js ''true'' then Some (JBool True)
      else if w = js ''false'' then Some (JBool False)
      else if w = js ''null'' then Some JNull
      else None)"

text \<open>
  The scanner reads one code unit at a time. Between tokens it skips white space; inside
  a string it handles the escapes of JSON and refuses raw control characters; a number
  or a literal extends as far as its characters do and is checked when it ends.
\<close>

datatype scanning =
    Between
  | InString jsstring
  | Escape jsstring
  | Unicode jsstring "16 word list"
  | InNumber jsstring
  | InLiteral jsstring

definition escaped :: "16 word \<Rightarrow> 16 word option" where
  "escaped c =
     (if c = 0x22 \<or> c = 0x5C \<or> c = of_char CHR ''/'' then Some c
      else if c = of_char CHR ''b'' then Some 0x08
      else if c = of_char CHR ''f'' then Some 0x0C
      else if c = of_char CHR ''n'' then Some 0x0A
      else if c = of_char CHR ''r'' then Some 0x0D
      else if c = of_char CHR ''t'' then Some 0x09
      else None)"

definition scan_between :: "token list \<Rightarrow> 16 word \<Rightarrow> (scanning \<times> token list) option" where
  "scan_between ts c =
     (if is_ws c then Some (Between, ts)
      else if c = of_char CHR ''{'' then Some (Between, ts @ [TLBrace])
      else if c = of_char CHR ''}'' then Some (Between, ts @ [TRBrace])
      else if c = of_char CHR ''['' then Some (Between, ts @ [TLBracket])
      else if c = of_char CHR '']'' then Some (Between, ts @ [TRBracket])
      else if c = of_char CHR '':'' then Some (Between, ts @ [TColon])
      else if c = of_char CHR '','' then Some (Between, ts @ [TComma])
      else if c = 0x22 then Some (InString [], ts)
      else if c = of_char CHR ''-'' \<or> is_digit c then Some (InNumber [c], ts)
      else if is_lower c then Some (InLiteral [c], ts)
      else None)"

fun fold_hex :: "16 word \<Rightarrow> 16 word list \<Rightarrow> 16 word option" where
  "fold_hex a [] = Some a"
| "fold_hex a (h # hs) = (case hex_value h of None \<Rightarrow> None | Some d \<Rightarrow> fold_hex (a * 16 + d) hs)"

definition scan_char :: "scanning \<times> token list \<Rightarrow> 16 word \<Rightarrow> (scanning \<times> token list) option" where
  "scan_char st c =
     (case st of
        (Between, ts) \<Rightarrow> scan_between ts c
      | (InString acc, ts) \<Rightarrow>
          if c = 0x22 then Some (Between, ts @ [TString acc])
          else if c = 0x5C then Some (Escape acc, ts)
          else if c < 0x20 then None
          else Some (InString (acc @ [c]), ts)
      | (Escape acc, ts) \<Rightarrow>
          if c = of_char CHR ''u'' then Some (Unicode acc [], ts)
          else (case escaped c of None \<Rightarrow> None | Some d \<Rightarrow> Some (InString (acc @ [d]), ts))
      | (Unicode acc hs, ts) \<Rightarrow>
          if length hs < 3 then
            (if hex_value c = None then None else Some (Unicode acc (hs @ [c]), ts))
          else (case fold_hex 0 (hs @ [c]) of
                  None \<Rightarrow> None
                | Some u \<Rightarrow> Some (InString (acc @ [u]), ts))
      | (InNumber acc, ts) \<Rightarrow>
          if is_number_char c then Some (InNumber (acc @ [c]), ts)
          else if valid_number acc then scan_between (ts @ [TNumber acc]) c
          else None
      | (InLiteral acc, ts) \<Rightarrow>
          if is_lower c then Some (InLiteral (acc @ [c]), ts)
          else (case literal_value acc of
                  None \<Rightarrow> None
                | Some v \<Rightarrow> scan_between (ts @ [TLiteral v]) c))"

fun scan :: "scanning \<times> token list \<Rightarrow> jsstring \<Rightarrow> (scanning \<times> token list) option" where
  "scan st [] = Some st"
| "scan st (c # cs) = (case scan_char st c of None \<Rightarrow> None | Some st' \<Rightarrow> scan st' cs)"

definition scan_end :: "scanning \<times> token list \<Rightarrow> token list option" where
  "scan_end st =
     (case st of
        (Between, ts) \<Rightarrow> Some ts
      | (InNumber acc, ts) \<Rightarrow> if valid_number acc then Some (ts @ [TNumber acc]) else None
      | (InLiteral acc, ts) \<Rightarrow>
          (case literal_value acc of None \<Rightarrow> None | Some v \<Rightarrow> Some (ts @ [TLiteral v]))
      | _ \<Rightarrow> None)"

definition tokens :: "jsstring \<Rightarrow> token list option" where
  "tokens s = (case scan (Between, []) s of None \<Rightarrow> None | Some st \<Rightarrow> scan_end st)"

subsection \<open>Grammar\<close>

text \<open>
  The grammar is recognised with an explicit stack of the containers still open: an
  array with the elements read so far, an object with its members, or an object whose
  next key has been read and whose value is awaited.
\<close>

datatype frame =
    ArrayFrame "json list"
  | ObjectFrame "(jsstring \<times> json) list"
  | KeyFrame "(jsstring \<times> json) list" jsstring

datatype expecting =
    AValue
  | AValueOrEnd
  | AKey
  | AKeyOrEnd
  | AColon
  | ACommaOrEnd
  | Nothing json

definition deliver :: "json \<Rightarrow> frame list \<Rightarrow> (frame list \<times> expecting) option" where
  "deliver v stack =
     (case stack of
        [] \<Rightarrow> Some ([], Nothing v)
      | ArrayFrame es # st \<Rightarrow> Some (ArrayFrame (es @ [v]) # st, ACommaOrEnd)
      | KeyFrame ms k # st \<Rightarrow> Some (ObjectFrame (put k v ms) # st, ACommaOrEnd)
      | ObjectFrame ms # st \<Rightarrow> None)"

definition close_array :: "frame list \<Rightarrow> (frame list \<times> expecting) option" where
  "close_array stack =
     (case stack of ArrayFrame es # st \<Rightarrow> deliver (JArray es) st | _ \<Rightarrow> None)"

definition close_object :: "frame list \<Rightarrow> (frame list \<times> expecting) option" where
  "close_object stack =
     (case stack of ObjectFrame ms # st \<Rightarrow> deliver (JObject ms) st | _ \<Rightarrow> None)"

definition open_key :: "jsstring \<Rightarrow> frame list \<Rightarrow> (frame list \<times> expecting) option" where
  "open_key k stack =
     (case stack of ObjectFrame ms # st \<Rightarrow> Some (KeyFrame ms k # st, AColon) | _ \<Rightarrow> None)"

definition start_value :: "frame list \<Rightarrow> token \<Rightarrow> (frame list \<times> expecting) option" where
  "start_value stack t =
     (case t of
        TLBracket \<Rightarrow> Some (ArrayFrame [] # stack, AValueOrEnd)
      | TLBrace \<Rightarrow> Some (ObjectFrame [] # stack, AKeyOrEnd)
      | TString s \<Rightarrow> deliver (JString s) stack
      | TNumber n \<Rightarrow> deliver (JNumber n) stack
      | TLiteral v \<Rightarrow> deliver v stack
      | _ \<Rightarrow> None)"

definition after_value :: "frame list \<Rightarrow> token \<Rightarrow> (frame list \<times> expecting) option" where
  "after_value stack t =
     (case t of
        TComma \<Rightarrow>
          (case stack of
             ArrayFrame es # st \<Rightarrow> Some (stack, AValue)
           | ObjectFrame ms # st \<Rightarrow> Some (stack, AKey)
           | _ \<Rightarrow> None)
      | TRBracket \<Rightarrow> close_array stack
      | TRBrace \<Rightarrow> close_object stack
      | _ \<Rightarrow> None)"

definition parse_token :: "frame list \<times> expecting \<Rightarrow> token \<Rightarrow> (frame list \<times> expecting) option" where
  "parse_token st t =
     (case st of
        (stack, AValue) \<Rightarrow> start_value stack t
      | (stack, AValueOrEnd) \<Rightarrow> if t = TRBracket then close_array stack else start_value stack t
      | (stack, AKey) \<Rightarrow> (case t of TString k \<Rightarrow> open_key k stack | _ \<Rightarrow> None)
      | (stack, AKeyOrEnd) \<Rightarrow>
          (case t of TString k \<Rightarrow> open_key k stack | TRBrace \<Rightarrow> close_object stack | _ \<Rightarrow> None)
      | (stack, AColon) \<Rightarrow> if t = TColon then Some (stack, AValue) else None
      | (stack, ACommaOrEnd) \<Rightarrow> after_value stack t
      | (stack, Nothing v) \<Rightarrow> None)"

fun parse_tokens :: "frame list \<times> expecting \<Rightarrow> token list \<Rightarrow> (frame list \<times> expecting) option" where
  "parse_tokens st [] = Some st"
| "parse_tokens st (t # ts) =
     (case parse_token st t of None \<Rightarrow> None | Some st' \<Rightarrow> parse_tokens st' ts)"

text \<open>
  \<open>JSON.parse(text)\<close>: the value of the text, or \<open>None\<close> where the engine throws a
  \<open>SyntaxError\<close>.
\<close>

definition JSON_parse :: "jsstring \<Rightarrow> json option" where
  "JSON_parse s =
     (case tokens s of
        None \<Rightarrow> None
      | Some ts \<Rightarrow>
          (case parse_tokens ([], AValue) ts of
             Some ([], Nothing v) \<Rightarrow> Some v
           | _ \<Rightarrow> None))"

section \<open>Reading JavaScript values\<close>

text \<open>A value read at run time: \<open>undefined\<close>, or a JSON value.\<close>

datatype jsvalue = Undefined | Defined json

text \<open>
  The number a JSON number text denotes is zero as a double exactly when its digits are
  all zero or its magnitude rounds to zero, which (round to nearest, ties to even) is
  when it is at most \<open>2^-1075\<close>. \<open>digits_value\<close> reads a run of decimal digits;
  the magnitude of the number is \<open>mantissa * 10 ^ exponent10\<close>.
\<close>

definition digits_value :: "jsstring \<Rightarrow> nat" where
  "digits_value ds = foldl (\<lambda>a d. a * 10 + (unat d - 48)) 0 ds"

definition fraction_digits :: "jsstring \<Rightarrow> jsstring" where
  "fraction_digits s =
     (case dropWhile is_digit (strip_minus s) of
        [] \<Rightarrow> []
      | c # r \<Rightarrow> if c = of_char CHR ''.'' then takeWhile is_digit r else [])"

definition exponent_part :: "jsstring \<Rightarrow> int" where
  "exponent_part s =
     (case dropWhile (\<lambda>c. c \<noteq> of_char CHR ''e'' \<and> c \<noteq> of_char CHR ''E'') s of
        [] \<Rightarrow> 0
      | c # r \<Rightarrow>
          (case r of
             [] \<Rightarrow> 0
           | d # r' \<Rightarrow>
               if d = of_char CHR ''-'' then - int (digits_value r')
               else int (digits_value (strip_sign r))))"

definition mantissa :: "jsstring \<Rightarrow> nat" where
  "mantissa s = digits_value (takeWhile is_digit (strip_minus s) @ fraction_digits s)"

definition exponent10 :: "jsstring \<Rightarrow> int" where
  "exponent10 s = exponent_part s - int (length (fraction_digits s))"

definition number_is_zero :: "jsstring \<Rightarrow> bool" where
  "number_is_zero s =
     (mantissa s = 0 \<or>
      (exponent10 s < 0 \<and> mantissa s * 2 ^ 1075 \<le> 10 ^ nat (- exponent10 s)))"

text \<open>Truthiness: what \<open>!x\<close> negates.\<close>

fun truthy :: "jsvalue \<Rightarrow> bool" where
  "truthy Undefined = False"
| "truthy (Defined JNull) = False"
| "truthy (Defined (JBool b)) = b"
| "truthy (Defined (JNumber n)) = (\<not> number_is_zero n)"
| "truthy (Defined (JString s)) = (s \<noteq> [])"
| "truthy (Defined (JArray es)) = True"
| "truthy (Defined (JObject ms)) = True"

text \<open>
  \<open>v.name\<close> for a value \<open>v\<close> that is neither \<open>null\<close> nor \<open>undefined\<close>, and for the
  names read in this program (\<open>imageBase64\<close>, \<open>choices\<close>, \<open>message\<close>, \<open>content\<close>),
  none of which is a property of a string, a number, a boolean or an array: only an
  object can have it.
\<close>

definition get_prop :: "jsstring \<Rightarrow> json \<Rightarrow> jsvalue" where
  "get_prop name v =
     (case v of
        JObject ms \<Rightarrow> (case map_of ms name of None \<Rightarrow> Undefined | Some x \<Rightarrow> Defined x)
      | _ \<Rightarrow> Undefined)"

text \<open>
  \<open>v[0]\<close> for such a value: the first element of an array, the first code unit of a
  string, the member \<open>"0"\<close> of an object.
\<close>

definition index0 :: "json \<Rightarrow> jsvalue" where
  "index0 v =
     (case v of
        JArray es \<Rightarrow> (case es of [] \<Rightarrow> Undefined | e # r \<Rightarrow> Defined e)
      | JString s \<Rightarrow> (case s of [] \<Rightarrow> Undefined | c # r \<Rightarrow> Defined (JString [c]))
      | JObject ms \<Rightarrow> get_prop (js ''0'') v
      | _ \<Rightarrow> Undefined)"

text \<open>Optional chaining \<open>x?.f\<close>: \<open>undefined\<close> when \<open>x\<close> is \<open>null\<close> or \<open>undefined\<close>.\<close>

definition opt_chain :: "(json \<Rightarrow> jsvalue) \<Rightarrow> jsvalue \<Rightarrow> jsvalue" where
  "opt_chain f x =
     (case x of Undefined \<Rightarrow> Undefined | Defined JNull \<Rightarrow> Undefined | Defined v \<Rightarrow> f v)"

text \<open>
  \<open>String(n)\<close> for a non-negative integer below \<open>10^21\<close> (a status code, a size in KB,
  a clock reading): its decimal digits.
\<close>

function show_nat :: "nat \<Rightarrow> jsstring" where
  "show_nat n =
     (if n < 10 then [of_char CHR ''0'' + of_nat n]
      else show_nat (n div 10) @ [of_char CHR ''0'' + of_nat (n mod 10)])"
  by pat_completeness auto
termination
  by (relation "measure id") auto

declare show_nat.simps [simp del]

section \<open>The analysis service (src/unnamed/part_002)\<close>

text \<open>
  \<open>content.match(/\{[\s\S]*\}/)\<close>, element 0 of the match. The match starts at the
  leftmost \<open>{\<close>; \<open>[\s\S]*\<close> is greedy and takes every code unit, then gives back as
  few as it must for the closing \<open>}\<close> to match, so the span ends at the last \<open>}\<close>
  of the text. There is no match when no \<open>}\<close> follows the first \<open>{\<close>.
\<close>

definition upto_last_rbrace :: "jsstring \<Rightarrow> jsstring" where
  "upto_last_rbrace s = rev (dropWhile (\<lambda>c. c \<noteq> of_char CHR ''}'') (rev s))"

definition match_braces :: "jsstring \<Rightarrow> jsstring option" where
  "match_braces s =
     (case dropWhile (\<lambda>c. c \<noteq> of_char CHR ''{'') s of
        [] \<Rightarrow> None
      | c # r \<Rightarrow> if upto_last_rbrace r = [] then None else Some (c # upto_last_rbrace r))"

text \<open>
  Lines 120-133, the same in both versions of the server: the body is parsed as JSON,
  \<open>data.choices?.[0]?.message?.content\<close> is read, the brace span of the content is
  matched and parsed, and the value parsed is returned as it is
  (\<open>as AnalysisResult\<close> is a compile-time cast). Reading \<open>choices\<close> of \<open>null\<close> and
  calling \<open>match\<close> on a value that is not a string throw a \<open>TypeError\<close>.
\<close>

definition completion_content :: "json \<Rightarrow> js_error + jsvalue" where
  "completion_content data =
     (case data of
        JNull \<Rightarrow> Inl TypeError
      | _ \<Rightarrow> Inr (opt_chain (get_prop (js ''content''))
                  (opt_chain (get_prop (js ''message''))
                    (opt_chain index0 (get_prop (js ''choices'') data)))))"

definition extract_content :: "jsvalue \<Rightarrow> js_error + json" where
  "extract_content c =
     (if \<not> truthy c then Inl (Error (js ''No response from Abacus API''))
      else (case c of
              Defined (JString text) \<Rightarrow>
                (case match_braces text of
                   None \<Rightarrow> Inl (Error (js ''Could not parse response from Abacus API''))
                 | Some jsonMatch \<Rightarrow>
                     (case JSON_parse jsonMatch of
                        None \<Rightarrow> Inl SyntaxError
                      | Some result \<Rightarrow> Inr result))
            | _ \<Rightarrow> Inl TypeError))"

definition read_completion :: "response \<Rightarrow> js_error + json" where
  "read_completion resp =
     (case JSON_parse (body resp) of
        None \<Rightarrow> Inl SyntaxError
      | Some data \<Rightarrow>
          (case completion_content data of
             Inl err \<Rightarrow> Inl err
           | Inr c \<Rightarrow> extract_content c))"

text \<open>
  \<open>Math.ceil((imageBase64.length * 3) / 4 / 1024)\<close>. The length of a string is
  below \<open>2^53\<close> and the divisors are powers of two, so the double arithmetic of the
  source is exact and the rationals give the same number.
\<close>

definition base64SizeKB :: "jsstring \<Rightarrow> nat" where
  "base64SizeKB imageBase64 = nat \<lceil>(of_nat (length imageBase64 * 3) / 4 / 1024 :: rat)\<rceil>"

definition tooLargeMessage :: "nat \<Rightarrow> jsstring" where
  "tooLargeMessage kb =
     js ''Image too large ('' @ show_nat kb @ js ''KB). Please use a smaller image.''"

definition imageUrl :: "jsstring \<Rightarrow> jsstring" where
  "imageUrl imageBase64 =
     (if take 5 imageBase64 = js ''data:'' then imageBase64
      else js ''data:image/jpeg;base64,'' @ imageBase64)"

definition configured :: "jsstring option \<Rightarrow> bool" where
  "configured apiKey = (case apiKey of None \<Rightarrow> False | Some k \<Rightarrow> k \<noteq> [])"

definition bearer :: "jsstring option \<Rightarrow> jsstring" where
  "bearer apiKey =
     js ''Bearer '' @ (case apiKey of None \<Rightarrow> js ''undefined'' | Some k \<Rightarrow> k)"

definition routellm_request :: "jsstring option \<Rightarrow> jsstring \<Rightarrow> request" where
  "routellm_request apiKey imageBase64 =
     \<lparr>url = js ''https://routellm.abacus.ai/v1/chat/completions'',
      authorization = bearer apiKey,
      model = js ''route-llm'',
      content = PromptWithImage (imageUrl imageBase64),
      max_tokens = 500\<rparr>"

definition upstreamErrorMessage :: "response \<Rightarrow> jsstring" where
  "upstreamErrorMessage resp =
     js ''RouteLLM error '' @ show_nat (status resp) @ js '': '' @ body resp"

text \<open>
  \<open>analyzeWithAbacus\<close> of src/unnamed/part_002 (lines 42-138), for the API key found
  in the environment (\<open>None\<close> when the variable is unset) and the value the route
  passes in, which TypeScript declares a string and nothing checks at run time:
  \<open>startsWith\<close> is missing on every other value. The \<open>catch\<close> block logs and
  rethrows.
\<close>

definition analyzeWithAbacus ::
  "jsstring option \<Rightarrow> network \<Rightarrow> json \<Rightarrow> calls \<Rightarrow> (js_error + json) \<times> calls" where
  "analyzeWithAbacus apiKey net img sent =
     (if \<not> configured apiKey then (Inl (Error (js ''ABACUS_API_KEY is not configured'')), sent)
      else
        (case img of
           JString imageBase64 \<Rightarrow>
             if base64SizeKB imageBase64 > 4500
             then (Inl (Error (tooLargeMessage (base64SizeKB imageBase64))), sent)
             else
               (case fetchWithRetry net (routellm_request apiKey imageBase64) 2 15000 sent of
                  (Inl err, sent') \<Rightarrow> (Inl err, sent')
                | (Inr resp, sent') \<Rightarrow>
                    if \<not> ok resp then (Inl (Error (upstreamErrorMessage resp)), sent')
                    else (read_completion resp, sent'))
         | _ \<Rightarrow> (Inl TypeError, sent)))"

section \<open>The routes (src/unnamed/part_002, registerRoutes)\<close>

text \<open>
  A reply is a status code and a JSON body. \<open>ErrorBody e\<close> is the body
  \<open>{error: m}\<close> with \<open>m\<close> the message of \<open>e\<close> (for \<open>Error m\<close>, the text \<open>m\<close>
  itself; every value thrown here is an instance of \<open>Error\<close>, so the fallback text of
  the handler is never used); \<open>StatusBody s\<close> is \<open>{status: s}\<close>.
\<close>

datatype reply_body = JsonBody json | ErrorBody js_error | StatusBody jsstring

record reply =
  code :: nat
  payload :: reply_body

text \<open>
  \<open>POST /api/analyze\<close> (lines 141-157), for the parsed request body \<open>req.body\<close>.
  Destructuring \<open>null\<close> or \<open>undefined\<close> throws inside the \<open>try\<close>.
\<close>

definition post_analyze ::
  "jsstring option \<Rightarrow> network \<Rightarrow> jsvalue \<Rightarrow> calls \<Rightarrow> reply \<times> calls" where
  "post_analyze apiKey net req_body sent =
     (case req_body of
        Undefined \<Rightarrow> (\<lparr>code = 500, payload = ErrorBody TypeError\<rparr>, sent)
      | Defined JNull \<Rightarrow> (\<lparr>code = 500, payload = ErrorBody TypeError\<rparr>, sent)
      | Defined b \<Rightarrow>
          (case get_prop (js ''imageBase64'') b of
             Undefined \<Rightarrow>
               (\<lparr>code = 400, payload = ErrorBody (Error (js ''Image data is required''))\<rparr>, sent)
           | Defined imageBase64 \<Rightarrow>
               if \<not> truthy (Defined imageBase64)
               then (\<lparr>code = 400, payload = ErrorBody (Error (js ''Image data is required''))\<rparr>, sent)
               else
                 (case analyzeWithAbacus apiKey net imageBase64 sent of
                    (Inl err, sent') \<Rightarrow> (\<lparr>code = 500, payload = ErrorBody err\<rparr>, sent')
                  | (Inr result, sent') \<Rightarrow> (\<lparr>code = 200, payload = JsonBody result\<rparr>, sent'))))"

text \<open>\<open>GET /api/health/abacus\<close> (lines 159-187).\<close>

definition ping_request :: "jsstring option \<Rightarrow> request" where
  "ping_request apiKey =
     \<lparr>url = js ''https://routellm.abacus.ai/v1/chat/completions'',
      authorization = bearer apiKey,
      model = js ''route-llm'',
      content = Plain (js ''ping''),
      max_tokens = 1\<rparr>"

definition get_health_abacus :: "jsstring option \<Rightarrow> network \<Rightarrow> calls \<Rightarrow> reply \<times> calls" where
  "get_health_abacus apiKey net sent =
     (case fetchWithRetry net (ping_request apiKey) 0 5000 sent of
        (Inl err, sent') \<Rightarrow> (\<lparr>code = 503, payload = StatusBody (js ''down'')\<rparr>, sent')
      | (Inr resp, sent') \<Rightarrow>
          if \<not> ok resp then (\<lparr>code = 503, payload = StatusBody (js ''down'')\<rparr>, sent')
          else (\<lparr>code = 200, payload = StatusBody (js ''ok'')\<rparr>, sent'))"

section \<open>The other version of the server (src/server/routes.ts)\<close>

definition abacus_v0_request :: "jsstring option \<Rightarrow> jsstring \<Rightarrow> request" where
  "abacus_v0_request apiKey imageBase64 =
     \<lparr>url = js ''https://api.abacus.ai/v0/chat/completions'',
      authorization = bearer apiKey,
      model = js ''gpt-4o'',
      content = PromptWithImage (imageUrl imageBase64),
      max_tokens = 500\<rparr>"

text \<open>
  \<open>analyzeWithAbacus\<close> of src/server/routes.ts (lines 15-105): one plain \<open>fetch\<close>,
  no size guard, and an error message that carries the status alone (the body text is
  logged, not thrown).
\<close>

definition analyzeWithAbacus_routes_ts ::
  "jsstring option \<Rightarrow> network \<Rightarrow> json \<Rightarrow> calls \<Rightarrow> (js_error + json) \<times> calls" where
  "analyzeWithAbacus_routes_ts apiKey net img sent =
     (if \<not> configured apiKey then (Inl (Error (js ''ABACUS_API_KEY is not configured'')), sent)
      else
        (case img of
           JString imageBase64 \<Rightarrow>
             (case fetch net (abacus_v0_request apiKey imageBase64) sent of
                (Rejected err, sent') \<Rightarrow> (Inl err, sent')
              | (Resolved resp, sent') \<Rightarrow>
                  if \<not> ok resp
                  then (Inl (Error (js ''Abacus API error: '' @ show_nat (status resp))), sent')
                  else (read_completion resp, sent'))
         | _ \<Rightarrow> (Inl TypeError, sent)))"


section \<open>The history store (src/unnamed/part_001, ResultsScreen)\<close>

record HistoryItem =
  id' :: jsstring
  imageBase64 :: jsstring
  roastLevel :: jsstring
  temperature :: jsstring
  temperatureRange :: jsstring
  "notes" :: jsstring
  date :: jsstring

record AnalysisResult =
  result_roastLevel :: jsstring
  result_temperature :: jsstring
  result_temperatureRange :: jsstring
  result_notes :: jsstring

text \<open>
  What one press of the save button reads from its surroundings: the clock
  (\<open>Date.now()\<close> in milliseconds and \<open>new Date().toISOString()\<close>) and the route
  parameters of the screen.
\<close>

record save_press =
  now :: nat
  isoDate :: jsstring
  param_imageBase64 :: jsstring
  param_result :: AnalysisResult

definition newItem :: "save_press \<Rightarrow> HistoryItem" where
  "newItem p =
     \<lparr>id' = show_nat (now p),
      imageBase64 = param_imageBase64 p,
      roastLevel = result_roastLevel (param_result p),
      temperature = result_temperature (param_result p),
      temperatureRange = result_temperatureRange (param_result p),
      notes = result_notes (param_result p),
      date = isoDate p\<rparr>"

text \<open>
  \<open>handleSaveToHistory\<close> (lines 336-359) on the array kept under \<open>HISTORY_KEY\<close>
  (\<open>None\<close> while the key has never been written): \<open>existing ? JSON.parse(existing) : []\<close>,
  then \<open>unshift\<close>, then \<open>slice(0, 50)\<close> is stored. The store is taken to keep what
  is written to it, and \<open>JSON.stringify\<close> followed by \<open>JSON.parse\<close> to give back the
  items.
\<close>

definition stored_history :: "HistoryItem list option \<Rightarrow> HistoryItem list" where
  "stored_history existing = (case existing of None \<Rightarrow> [] | Some h \<Rightarrow> h)"

definition handleSaveToHistory :: "save_press \<Rightarrow> HistoryItem list option \<Rightarrow> HistoryItem list option" where
  "handleSaveToHistory p existing =
     (let history = stored_history existing
      in Some (take 50 (newItem p # history)))"

text \<open>A sequence of presses, the first of the list first.\<close>

fun saves :: "save_press list \<Rightarrow> HistoryItem list option \<Rightarrow> HistoryItem list option" where
  "saves [] stored = stored"
| "saves (p # ps) stored = saves ps (handleSaveToHistory p stored)"

section \<open>Sample inputs\<close>

text \<open>Concrete keys, payloads, upstream behaviours and texts, used to run the model.\<close>

definition sample_key :: "jsstring option" where
  "sample_key = Some (js ''test-key'')"

definition small_image :: jsstring where
  "small_image = js ''QUJD''"

definition oversized :: jsstring where
  "oversized = replicate 6144001 (of_char CHR ''A'')"

definition refused :: exchange where
  "refused = \<lparr>latency = 30, outcome = Rejected (NetworkError (js ''fetch failed''))\<rparr>"

definition answers :: "nat \<Rightarrow> jsstring \<Rightarrow> exchange" where
  "answers st b = \<lparr>latency = 40, outcome = Resolved \<lparr>status = st, body = b\<rparr>\<rparr>"

definition slow :: exchange where
  "slow = \<lparr>latency = 20000, outcome = Resolved \<lparr>status = 200, body = js ''{}''\<rparr>\<rparr>"

definition healthy :: network where
  "healthy k = answers 200 (js ''{}'')"

definition flaky :: network where
  "flaky k = (if k = 0 then refused else answers 200 (js ''{}''))"

definition busy :: network where
  "busy k = (if k = 0 then refused else answers 503 (js ''overloaded''))"

definition down :: network where
  "down k = (if k = 1 then slow else refused)"

definition stalled :: network where
  "stalled k = slow"

definition missing_notes_text :: jsstring where
  "missing_notes_text =
     js ''{\"roastLevel\":\"Dark\",\"temperature\":\"82\",\"temperatureRange\":\"80-85\"}''"

definition missing_notes_object :: json where
  "missing_notes_object =
     JObject [(js ''roastLevel'', JString (js ''Dark'')),
              (js ''temperature'', JString (js ''82'')),
              (js ''temperatureRange'', JString (js ''80-85''))]"

text \<open>The example of the specification; the degree sign is the code unit \<open>0xB0\<close>.\<close>

definition example_json_text :: jsstring where
  "example_json_text =
     js ''{\"roastLevel\":\"Dark\",\"temperature\":\"82\",\"temperatureRange\":\"80-85''
     @ [0xB0] @ js ''C\",\"notes\":\"x\"}''"

definition example_text :: jsstring where
  "example_text = js ''Sure! Here is the result: '' @ example_json_text"

definition example_object :: json where
  "example_object =
     JObject [(js ''roastLevel'', JString (js ''Dark'')),
              (js ''temperature'', JString (js ''82'')),
              (js ''temperatureRange'', JString (js ''80-85'' @ [0xB0] @ js ''C'')),
              (js ''notes'', JString (js ''x''))]"

definition two_objects_text :: jsstring where
  "two_objects_text = js ''{\"a\":1} or {\"b\":2}''"


definition body_with_imageBase64 :: json where
  "body_with_imageBase64 = JObject [(js ''imageBase64'', JString small_image)]"

definition press :: "nat \<Rightarrow> save_press" where
  "press t =
     \<lparr>now = t,
      isoDate = js ''2024-05-01T10:00:00.000Z'',
      param_imageBase64 = small_image,
      param_result =
        \<lparr>result_roastLevel = js ''Dark'',
         result_temperature = js ''82'',
         result_temperatureRange = js ''80-85'',
         result_notes = js ''x''\<rparr>\<rparr>"

text \<open>
  A chat-completion body whose first choice carries the given text as its content
  (the text written as a JSON string, quotes and backslashes escaped), and an upstream
  that answers every request with it.
\<close>

definition quoted :: "jsstring \<Rightarrow> jsstring" where
  "quoted s =
     [0x22] @ concat (map (\<lambda>c. if c = 0x22 \<or> c = 0x5C then [0x5C, c] else [c]) s) @ [0x22]"

definition completion_body :: "jsstring \<Rightarrow> jsstring" where
  "completion_body text =
     js ''{\"choices\":[{\"index\":0,\"message\":{\"content\":'' @ quoted text @ js ''}}]}''"

definition replying :: "jsstring \<Rightarrow> network" where
  "replying text k = answers 200 (completion_body text)"

section \<open>Properties of the retry loop\<close>

lemma fetchLoop_resolved:
  assumes "attempt \<le> retries"
    and "settle timeoutMs (net (length sent)) = Resolved resp"
  shows "fetchLoop net rq retries timeoutMs attempt sent = (Inr resp, sent @ [rq])"
  using assms by (subst fetchLoop.simps) (simp add: fetch_signal_def)

lemma fetchLoop_rejected_last:
  assumes "settle timeoutMs (net (length sent)) = Rejected err"
  shows "fetchLoop net rq retries timeoutMs retries sent = (Inl err, sent @ [rq])"
  using assms by (subst fetchLoop.simps) (simp add: fetch_signal_def)

lemma fetchLoop_rejected_next:
  assumes "attempt < retries"
    and "settle timeoutMs (net (length sent)) = Rejected err"
  shows "fetchLoop net rq retries timeoutMs attempt sent =
         fetchLoop net rq retries timeoutMs (Suc attempt) (sent @ [rq])"
  using assms by (subst fetchLoop.simps) (simp add: fetch_signal_def)

text \<open>
  Every run of the loop: it issues \<open>n + 1\<close> copies of the request, the first \<open>n\<close>
  of them rejected, and ends either on a resolved fetch or on the rejection of the last
  attempt allowed.
\<close>

lemma fetchLoop_run:
  assumes "attempt \<le> retries"
    and "fetchLoop net rq retries t attempt sent = (r, sent')"
  shows "\<exists>n. sent' = sent @ replicate (Suc n) rq \<and> attempt + n \<le> retries \<and>
             (\<forall>i<n. \<exists>e. settle t (net (length sent + i)) = Rejected e) \<and>
             (case settle t (net (length sent + n)) of
                Resolved resp \<Rightarrow> r = Inr resp
              | Rejected e \<Rightarrow> r = Inl e \<and> attempt + n = retries)"
  using assms
proof (induction k \<equiv> "retries - attempt" arbitrary: attempt sent)
  case 0
  then have last: "attempt = retries" by simp
  show ?case
  proof (cases "settle t (net (length sent))")
    case (Resolved resp)
    with 0 have "r = Inr resp" "sent' = sent @ [rq]"
      by (simp_all add: fetchLoop_resolved)
    then show ?thesis using Resolved last by (intro exI[of _ 0]) simp
  next
    case (Rejected e)
    with 0 last have "r = Inl e" "sent' = sent @ [rq]"
      by (simp_all add: fetchLoop_rejected_last)
    then show ?thesis using Rejected last by (intro exI[of _ 0]) simp
  qed
next
  case (Suc k)
  then have more: "attempt < retries" by simp
  show ?case
  proof (cases "settle t (net (length sent))")
    case (Resolved resp)
    with Suc.prems have "r = Inr resp" "sent' = sent @ [rq]"
      by (simp_all add: fetchLoop_resolved)
    then show ?thesis using Resolved more by (intro exI[of _ 0]) simp
  next
    case (Rejected e)
    then have "fetchLoop net rq retries t (Suc attempt) (sent @ [rq]) = (r, sent')"
      using Suc.prems more by (simp add: fetchLoop_rejected_next)
    moreover have "k = retries - Suc attempt" "Suc attempt \<le> retries"
      using Suc.hyps(2) more by simp_all
    ultimately obtain n where n:
      "sent' = (sent @ [rq]) @ replicate (Suc n) rq"
      "Suc attempt + n \<le> retries"
      "\<forall>i<n. \<exists>e. settle t (net (length (sent @ [rq]) + i)) = Rejected e"
      "case settle t (net (length (sent @ [rq]) + n)) of
         Resolved resp \<Rightarrow> r = Inr resp
       | Rejected e \<Rightarrow> r = Inl e \<and> Suc attempt + n = retries"
      using Suc.hyps(1) by blast
    have "\<forall>i<Suc n. \<exists>e. settle t (net (length sent + i)) = Rejected e"
    proof (intro allI impI)
      fix i assume "i < Suc n"
      show "\<exists>e. settle t (net (length sent + i)) = Rejected e"
      proof (cases i)
        case 0
        then show ?thesis using Rejected by simp
      next
        case (Suc j)
        then have "j < n" using \<open>i < Suc n\<close> by simp
        then show ?thesis using n(3) Suc by simp
      qed
    qed
    then show ?thesis using n
      by (intro exI[of _ "Suc n"]) (simp add: replicate_append_same split: settled.splits)
  qed
qed

text \<open>
  A call of a run that resolves is the last call of the run, and its response is what
  the run returns.
\<close>

lemma fetchWithRetry_resolved_call:
  assumes run: "fetchWithRetry net rq retries t sent = (r, sent')"
    and k: "length sent \<le> k" "k < length sent'"
    and res: "settle t (net k) = Resolved resp"
  shows "r = Inr resp \<and> length sent' = Suc k"
proof -
  from run obtain n where n:
    "sent' = sent @ replicate (Suc n) rq"
    "\<forall>i<n. \<exists>e. settle t (net (length sent + i)) = Rejected e"
    "case settle t (net (length sent + n)) of
       Resolved resp \<Rightarrow> r = Inr resp
     | Rejected e \<Rightarrow> r = Inl e \<and> 0 + n = retries"
    unfolding fetchWithRetry_def using fetchLoop_run[of 0 retries net rq t sent r sent'] by auto
  obtain i where i: "k = length sent + i" "i \<le> n"
    using k n(1) by (metis add.commute le_Suc_ex length_append length_replicate less_Suc_eq_le
        nat_add_left_cancel_less)
  have "i = n"
  proof (rule ccontr)
    assume "i \<noteq> n"
    then have "i < n" using i(2) by simp
    then show False using n(2) i(1) res by auto
  qed
  then show ?thesis using n(1,3) i(1) res by simp
qed

lemma fetchWithRetry_length:
  assumes "fetchWithRetry net rq retries t sent = (r, sent')"
  shows "length sent < length sent' \<and> length sent' \<le> length sent + Suc retries"
proof -
  from assms obtain n where "sent' = sent @ replicate (Suc n) rq" "0 + n \<le> retries"
    unfolding fetchWithRetry_def using fetchLoop_run[of 0 retries net rq t sent r sent'] by auto
  then show ?thesis by simp
qed

text \<open>
  Claim C2. With retry limit 2 (three attempts in all): when the first attempt fails in
  transport (the fetch rejects, or is aborted by its timer) and the second resolves, the
  response of the second attempt is returned and exactly two requests have been issued;
  when all three attempts fail, exactly three requests have been issued and the error of
  the last attempt is the one thrown.
\<close>

theorem fetchWithRetry_limit_2:
  "(settle t (net (length sent)) = Rejected e1 \<and>
    settle t (net (length sent + 1)) = Resolved resp
      \<longrightarrow> fetchWithRetry net rq 2 t sent = (Inr resp, sent @ [rq, rq]))
   \<and>
   (settle t (net (length sent)) = Rejected e1 \<and>
    settle t (net (length sent + 1)) = Rejected e2 \<and>
    settle t (net (length sent + 2)) = Rejected e3
      \<longrightarrow> fetchWithRetry net rq 2 t sent = (Inl e3, sent @ [rq, rq, rq]))"
proof (intro conjI impI)
  assume a: "settle t (net (length sent)) = Rejected e1 \<and>
             settle t (net (length sent + 1)) = Resolved resp"
  have "fetchWithRetry net rq 2 t sent = fetchLoop net rq 2 t (Suc 0) (sent @ [rq])"
    unfolding fetchWithRetry_def using a by (intro fetchLoop_rejected_next) simp_all
  also have "\<dots> = (Inr resp, (sent @ [rq]) @ [rq])"
    using a by (intro fetchLoop_resolved) simp_all
  finally show "fetchWithRetry net rq 2 t sent = (Inr resp, sent @ [rq, rq])" by simp
next
  assume a: "settle t (net (length sent)) = Rejected e1 \<and>
             settle t (net (length sent + 1)) = Rejected e2 \<and>
             settle t (net (length sent + 2)) = Rejected e3"
  have "fetchWithRetry net rq 2 t sent = fetchLoop net rq 2 t (Suc 0) (sent @ [rq])"
    unfolding fetchWithRetry_def using a by (intro fetchLoop_rejected_next) simp_all
  also have "\<dots> = fetchLoop net rq 2 t (Suc (Suc 0)) ((sent @ [rq]) @ [rq])"
    using a by (intro fetchLoop_rejected_next) simp_all
  also have "\<dots> = fetchLoop net rq 2 t 2 (sent @ [rq, rq])"
    by (simp add: numeral_2_eq_2)
  also have "\<dots> = (Inl e3, (sent @ [rq, rq]) @ [rq])"
    using a by (intro fetchLoop_rejected_last) simp
  finally show "fetchWithRetry net rq 2 t sent = (Inl e3, sent @ [rq, rq, rq])" by simp
qed

theorem fetchWithRetry_limit_2_witness:
  "fetchWithRetry flaky (ping_request sample_key) 2 15000 [] =
     (Inr \<lparr>status = 200, body = js ''{}''\<rparr>, [ping_request sample_key, ping_request sample_key])
   \<and> fetchWithRetry down (ping_request sample_key) 2 15000 [] =
     (Inl (NetworkError (js ''fetch failed'')),
      [ping_request sample_key, ping_request sample_key, ping_request sample_key])"
proof -
  have f: "settle 15000 (flaky (length [])) = Rejected (NetworkError (js ''fetch failed''))"
    "settle 15000 (flaky (length [] + 1)) = Resolved \<lparr>status = 200, body = js ''{}''\<rparr>"
    by (simp_all add: settle_def flaky_def refused_def answers_def)
  have d: "settle 15000 (down (length [])) = Rejected (NetworkError (js ''fetch failed''))"
    "settle 15000 (down (length [] + 1)) = Rejected AbortError"
    "settle 15000 (down (length [] + 2)) = Rejected (NetworkError (js ''fetch failed''))"
    by (simp_all add: settle_def down_def refused_def slow_def)
  show ?thesis
    using fetchWithRetry_limit_2[of 15000 flaky "[]" _ _ "ping_request sample_key"]
      fetchWithRetry_limit_2[of 15000 down "[]" _ _ "ping_request sample_key"] f d
    by simp
qed

section \<open>The size guard\<close>

lemma ceiling_4096: "\<lceil>(of_nat a / 4 / 1024 :: rat)\<rceil> = (int a + 4095) div 4096"
proof -
  have "(of_nat a / 4 / 1024 :: rat) = of_int (int a) / of_int 4096" by simp
  then have "\<lceil>(of_nat a / 4 / 1024 :: rat)\<rceil> = - (- int a div 4096)"
    by (simp only: ceiling_divide_eq_div)
  also have "\<dots> = (int a + 4095) div 4096"
  proof -
    have "int a + 4095 = 4096 * ((int a + 4095) div 4096) + (int a + 4095) mod 4096" by simp
    moreover have m: "0 \<le> (int a + 4095) mod 4096" "(int a + 4095) mod 4096 < 4096" by simp_all
    ultimately have "- int a = 4096 * (- ((int a + 4095) div 4096)) + (4095 - (int a + 4095) mod 4096)"
      by linarith
    moreover have "0 \<le> 4095 - (int a + 4095) mod 4096" "4095 - (int a + 4095) mod 4096 < 4096"
      using m by linarith+
    ultimately have "- int a div 4096 = - ((int a + 4095) div 4096)"
      by (metis (no_types, lifting) div_pos_pos_trivial add.commute div_mult_self2 add.right_neutral zero_neq_numeral)
    then show ?thesis by simp
  qed
  finally show ?thesis .
qed

lemma base64SizeKB_div: "base64SizeKB s = (length s * 3 + 4095) div 4096"
proof -
  have "int (base64SizeKB s) = (int (length s * 3) + 4095) div 4096"
    unfolding base64SizeKB_def ceiling_4096 by simp
  also have "\<dots> = int ((length s * 3 + 4095) div 4096)"
    by (simp add: zdiv_int)
  finally show ?thesis by (simp only: int_int_eq)
qed

lemma too_large_iff: "base64SizeKB s > 4500 \<longleftrightarrow> length s > 6144000"
proof -
  have "base64SizeKB s > 4500 \<longleftrightarrow> 4501 \<le> (length s * 3 + 4095) div 4096"
    unfolding base64SizeKB_div by linarith
  also have "\<dots> \<longleftrightarrow> 4501 * 4096 \<le> length s * 3 + 4095"
    by (rule less_eq_div_iff_mult_less_eq) simp
  also have "\<dots> \<longleftrightarrow> length s > 6144000" by linarith
  finally show ?thesis .
qed

lemma base64SizeKB_oversized: "base64SizeKB oversized = 4501"
  by (simp add: base64SizeKB_div oversized_def)

lemma configured_sample_key: "configured sample_key"
  by (simp add: configured_def sample_key_def js_def)

text \<open>
  Claim C1, as the code has it. The check of the API key comes first and the size guard
  second, both before any request. For every payload whose estimate
  \<open>ceil(length * 3 / 4 / 1024)\<close> exceeds 4500 (that is, every payload longer than
  6144000 code units): when a key is configured the analysis fails with the
  "Image too large" error carrying the estimate; when no key is configured it fails with
  the configuration error; in both cases no request is issued.
\<close>

theorem analyzeWithAbacus_too_large:
  assumes "base64SizeKB img > 4500"
  shows "(configured apiKey \<longrightarrow>
            analyzeWithAbacus apiKey net (JString img) sent =
              (Inl (Error (tooLargeMessage (base64SizeKB img))), sent))
         \<and> (\<not> configured apiKey \<longrightarrow>
            analyzeWithAbacus apiKey net (JString img) sent =
              (Inl (Error (js ''ABACUS_API_KEY is not configured'')), sent))
         \<and> snd (analyzeWithAbacus apiKey net (JString img) sent) = sent
         \<and> length img > 6144000"
  using assms by (simp add: analyzeWithAbacus_def too_large_iff)

theorem analyzeWithAbacus_too_large_witness:
  "base64SizeKB oversized > 4500
   \<and> configured sample_key
   \<and> analyzeWithAbacus sample_key healthy (JString oversized) [] =
       (Inl (Error (js ''Image too large (4501KB). Please use a smaller image.'')), [])
   \<and> \<not> configured (Some [])
   \<and> analyzeWithAbacus (Some []) healthy (JString oversized) [] =
       (Inl (Error (js ''ABACUS_API_KEY is not configured'')), [])"
proof -
  have big: "base64SizeKB oversized > 4500" by (simp add: base64SizeKB_oversized)
  have msg: "tooLargeMessage 4501 = js ''Image too large (4501KB). Please use a smaller image.''"
    by (simp add: tooLargeMessage_def show_nat.simps js_def)
  have unset: "\<not> configured (Some [])" by (simp add: configured_def)
  have a: "analyzeWithAbacus sample_key healthy (JString oversized) [] =
       (Inl (Error (js ''Image too large (4501KB). Please use a smaller image.'')), [])"
    using analyzeWithAbacus_too_large[OF big, of sample_key healthy "[]"]
    by (simp add: configured_sample_key base64SizeKB_oversized msg)
  have b: "analyzeWithAbacus (Some []) healthy (JString oversized) [] =
       (Inl (Error (js ''ABACUS_API_KEY is not configured'')), [])"
    using analyzeWithAbacus_too_large[OF big, of "Some []" healthy "[]"] unset by blast
  show ?thesis using big configured_sample_key a unset b by blast
qed

text \<open>
  The claim as the specification states it fails when no key is configured: an oversized
  payload is then refused with the configuration error, not with "Image too large".
\<close>

theorem analyzeWithAbacus_unconfigured_oversized:
  "base64SizeKB oversized > 4500
   \<and> analyzeWithAbacus None healthy (JString oversized) [] =
       (Inl (Error (js ''ABACUS_API_KEY is not configured'')), [])
   \<and> Error (js ''ABACUS_API_KEY is not configured'')
       \<noteq> Error (tooLargeMessage (base64SizeKB oversized))"
  by (simp add: base64SizeKB_oversized analyzeWithAbacus_def configured_def tooLargeMessage_def js_def)

section \<open>Upstream errors and the health check\<close>

text \<open>
  Claim C5. In a run of \<open>analyzeWithAbacus\<close>, an attempt that completes with a response
  whose status is not 2xx is the last request of the run (no retry follows it), and the
  run fails with the error \<open>RouteLLM error <status>: <body text>\<close>.
\<close>

theorem analyzeWithAbacus_upstream_error:
  assumes run: "analyzeWithAbacus apiKey net v sent = (res, sent')"
    and k: "length sent \<le> k" "k < length sent'"
    and resolved: "settle 15000 (net k) = Resolved resp"
    and bad: "\<not> ok resp"
  shows "length sent' = Suc k
         \<and> res = Inl (Error (js ''RouteLLM error '' @ show_nat (status resp) @ js '': '' @ body resp))"
proof -
  from k have grew: "sent' \<noteq> sent" by auto
  have conf: "configured apiKey"
    using run grew by (auto simp: analyzeWithAbacus_def split: if_splits)
  obtain img where v: "v = JString img"
    using run grew conf by (cases v) (auto simp: analyzeWithAbacus_def)
  have small: "\<not> base64SizeKB img > 4500"
    using run grew conf v by (auto simp: analyzeWithAbacus_def split: if_splits)
  obtain r s' where f: "fetchWithRetry net (routellm_request apiKey img) 2 15000 sent = (r, s')"
    by (cases "fetchWithRetry net (routellm_request apiKey img) 2 15000 sent")
  have s': "s' = sent'"
    using run conf v small f by (auto simp: analyzeWithAbacus_def split: sum.splits if_splits)
  from fetchWithRetry_resolved_call[OF f[unfolded s'] k resolved]
  have r: "r = Inr resp" and len: "length sent' = Suc k" by simp_all
  have "res = Inl (Error (upstreamErrorMessage resp))"
    using run conf v small f r bad by (simp add: analyzeWithAbacus_def)
  then show ?thesis using len by (simp add: upstreamErrorMessage_def)
qed

theorem analyzeWithAbacus_upstream_error_witness:
  "analyzeWithAbacus sample_key busy (JString small_image) [] =
     (Inl (Error (js ''RouteLLM error 503: overloaded'')),
      [routellm_request sample_key small_image, routellm_request sample_key small_image])
   \<and> settle 15000 (busy 1) = Resolved \<lparr>status = 503, body = js ''overloaded''\<rparr>
   \<and> \<not> ok \<lparr>status = 503, body = js ''overloaded''\<rparr>"
proof -
  let ?rq = "routellm_request sample_key small_image"
  let ?resp = "\<lparr>status = 503, body = js ''overloaded''\<rparr>"
  have small: "\<not> base64SizeKB small_image > 4500"
    by (simp add: too_large_iff small_image_def js_def)
  have f: "fetchWithRetry busy ?rq 2 15000 [] = (Inr ?resp, [?rq, ?rq])"
    by (simp add: fetchWithRetry_def fetchLoop.simps fetch_signal_def settle_def busy_def
        refused_def answers_def)
  have resolved: "settle 15000 (busy 1) = Resolved ?resp"
    by (simp add: settle_def busy_def answers_def)
  have bad: "\<not> ok ?resp" by (simp add: ok_def)
  have run: "analyzeWithAbacus sample_key busy (JString small_image) [] =
             (Inl (Error (upstreamErrorMessage ?resp)), [?rq, ?rq])"
    using small f bad by (simp add: analyzeWithAbacus_def configured_sample_key)
  have msg: "js ''RouteLLM error '' @ show_nat (status ?resp) @ js '': '' @ body ?resp
             = js ''RouteLLM error 503: overloaded''"
    by (simp add: show_nat.simps js_def)
  from analyzeWithAbacus_upstream_error[OF run _ _ resolved bad]
  have "Inl (Error (upstreamErrorMessage ?resp)) =
        (Inl (Error (js ''RouteLLM error '' @ show_nat (status ?resp) @ js '': '' @ body ?resp))
          :: js_error + json)"
    by simp
  then show ?thesis using run resolved bad msg by simp
qed

text \<open>
  Claim C7. \<open>GET /api/health/abacus\<close> issues exactly one request (no retry), with a
  timer of 5000 ms. It answers 200 \<open>{status: "ok"}\<close> when that request resolves in time
  with a 2xx status, and 503 \<open>{status: "down"}\<close> in every other case: another status,
  a rejected fetch, or an exchange still open when the timer fires. The reply to a
  failure is the same whatever the cause.
\<close>

theorem get_health_abacus_binary:
  "snd (get_health_abacus apiKey net sent) = sent @ [ping_request apiKey]
   \<and> fst (get_health_abacus apiKey net sent) =
       (case settle 5000 (net (length sent)) of
          Resolved resp \<Rightarrow>
            if ok resp then \<lparr>code = 200, payload = StatusBody (js ''ok'')\<rparr>
            else \<lparr>code = 503, payload = StatusBody (js ''down'')\<rparr>
        | Rejected err \<Rightarrow> \<lparr>code = 503, payload = StatusBody (js ''down'')\<rparr>)
   \<and> (5000 \<le> latency (net (length sent)) \<longrightarrow>
        fst (get_health_abacus apiKey net sent) = \<lparr>code = 503, payload = StatusBody (js ''down'')\<rparr>)"
proof -
  have run: "fetchWithRetry net (ping_request apiKey) 0 5000 sent =
        (case settle 5000 (net (length sent)) of
           Resolved resp \<Rightarrow> Inr resp | Rejected err \<Rightarrow> Inl err,
         sent @ [ping_request apiKey])"
    unfolding fetchWithRetry_def
    by (cases "settle 5000 (net (length sent))")
       (simp_all add: fetchLoop_resolved fetchLoop_rejected_last)
  show ?thesis
    unfolding get_health_abacus_def run
    by (cases "settle 5000 (net (length sent))") (auto simp: settle_def split: if_splits)
qed

theorem get_health_abacus_binary_witness:
  "get_health_abacus sample_key healthy [] =
     (\<lparr>code = 200, payload = StatusBody (js ''ok'')\<rparr>, [ping_request sample_key])
   \<and> get_health_abacus sample_key busy [ping_request sample_key] =
     (\<lparr>code = 503, payload = StatusBody (js ''down'')\<rparr>, [ping_request sample_key, ping_request sample_key])
   \<and> get_health_abacus sample_key busy [] =
     (\<lparr>code = 503, payload = StatusBody (js ''down'')\<rparr>, [ping_request sample_key])
   \<and> 5000 \<le> latency (stalled 0)
   \<and> get_health_abacus None stalled [] =
     (\<lparr>code = 503, payload = StatusBody (js ''down'')\<rparr>, [ping_request None])"
proof -
  have a: "settle 5000 (healthy (length [])) = Resolved \<lparr>status = 200, body = js ''{}''\<rparr>"
    by (simp add: settle_def healthy_def answers_def)
  have b: "settle 5000 (busy (length [ping_request sample_key]))
           = Resolved \<lparr>status = 503, body = js ''overloaded''\<rparr>"
    by (simp add: settle_def busy_def answers_def)
  have c: "settle 5000 (busy (length [])) = Rejected (NetworkError (js ''fetch failed''))"
    by (simp add: settle_def busy_def refused_def)
  have d: "5000 \<le> latency (stalled (length []))"
    by (simp add: stalled_def slow_def)
  have e: "settle 5000 (stalled (length [])) = Rejected AbortError"
    by (simp add: settle_def stalled_def slow_def)
  have 1: "get_health_abacus sample_key healthy [] =
      (\<lparr>code = 200, payload = StatusBody (js ''ok'')\<rparr>, [ping_request sample_key])"
    using get_health_abacus_binary[of sample_key healthy "[]"] unfolding a
    by (simp add: ok_def prod_eq_iff)
  have 2: "get_health_abacus sample_key busy [ping_request sample_key] =
      (\<lparr>code = 503, payload = StatusBody (js ''down'')\<rparr>,
       [ping_request sample_key, ping_request sample_key])"
    using get_health_abacus_binary[of sample_key busy "[ping_request sample_key]"] unfolding b
    by (simp add: ok_def prod_eq_iff)
  have 3: "get_health_abacus sample_key busy [] =
      (\<lparr>code = 503, payload = StatusBody (js ''down'')\<rparr>, [ping_request sample_key])"
    using get_health_abacus_binary[of sample_key busy "[]"] unfolding c
    by (simp add: prod_eq_iff)
  have 4: "get_health_abacus None stalled [] =
      (\<lparr>code = 503, payload = StatusBody (js ''down'')\<rparr>, [ping_request None])"
    using get_health_abacus_binary[of None stalled "[]"] unfolding e
    by (simp add: prod_eq_iff)
  show ?thesis using 1 2 3 4 d by simp
qed

section \<open>Extraction of the result\<close>

lemmas json_eval =
  JSON_parse_def tokens_def js_def scan_char_def scan_between_def scan_end_def
  is_ws_def is_digit_def is_lower_def is_number_char_def literal_value_def escaped_def
  valid_number_def valid_int_part_def valid_fraction_exponent_def valid_exponent_def
  strip_minus_def strip_sign_def
  parse_token_def start_value_def after_value_def close_object_def close_array_def
  open_key_def deliver_def

lemma match_braces_Nil: "match_braces [] = None"
  by (simp add: match_braces_def)

lemma upto_last_rbrace_append:
  assumes "of_char CHR ''}'' \<notin> set post"
  shows "upto_last_rbrace (mid @ [of_char CHR ''}''] @ post) = mid @ [of_char CHR ''}'']"
proof -
  have "dropWhile (\<lambda>c. c \<noteq> of_char CHR ''}'') (rev post @ of_char CHR ''}'' # rev mid)
        = of_char CHR ''}'' # rev mid"
    using assms by (subst dropWhile_append2) auto
  then show ?thesis by (simp add: upto_last_rbrace_def)
qed

lemma match_braces_span:
  assumes "of_char CHR ''{'' \<notin> set pre" and "of_char CHR ''}'' \<notin> set post"
  shows "match_braces (pre @ [of_char CHR ''{''] @ mid @ [of_char CHR ''}''] @ post)
         = Some ([of_char CHR ''{''] @ mid @ [of_char CHR ''}''])"
proof -
  have "dropWhile (\<lambda>c. c \<noteq> of_char CHR ''{'')
          (pre @ [of_char CHR ''{''] @ mid @ [of_char CHR ''}''] @ post)
        = of_char CHR ''{'' # (mid @ [of_char CHR ''}''] @ post)"
    using assms(1) by (subst dropWhile_append2) auto
  then show ?thesis
    using upto_last_rbrace_append[OF assms(2), of mid] by (simp add: match_braces_def)
qed

lemma extract_content_parsed:
  assumes "match_braces text = Some jsonMatch" and "JSON_parse jsonMatch = Some v"
  shows "extract_content (Defined (JString text)) = Inr v"
proof -
  have "text \<noteq> []" using assms(1) match_braces_Nil by auto
  then show ?thesis using assms by (simp add: extract_content_def)
qed

lemma JSON_parse_missing_notes: "JSON_parse missing_notes_text = Some missing_notes_object"
  unfolding missing_notes_text_def missing_notes_object_def by (simp add: json_eval)

lemma match_braces_missing_notes: "match_braces missing_notes_text = Some missing_notes_text"
  unfolding missing_notes_text_def by (simp add: match_braces_def upto_last_rbrace_def js_def)

lemma JSON_parse_example: "JSON_parse example_json_text = Some example_object"
  unfolding example_json_text_def example_object_def by (simp add: json_eval)

lemma match_braces_example: "match_braces example_text = Some example_json_text"
  unfolding example_text_def example_json_text_def
  by (simp add: match_braces_def upto_last_rbrace_def js_def)

lemma JSON_parse_completion_missing_notes:
  "JSON_parse (completion_body missing_notes_text) =
     Some (JObject [(js ''choices'',
             JArray [JObject [(js ''index'', JNumber (js ''0'')),
                              (js ''message'', JObject [(js ''content'', JString missing_notes_text)])]])])"
  unfolding completion_body_def quoted_def missing_notes_text_def by (simp add: json_eval)

lemma read_completion_missing_notes:
  "read_completion \<lparr>status = 200, body = completion_body missing_notes_text\<rparr>
   = Inr missing_notes_object"
proof -
  have c: "completion_content
             (JObject [(js ''choices'',
                JArray [JObject [(js ''index'', JNumber (js ''0'')),
                                 (js ''message'', JObject [(js ''content'', JString missing_notes_text)])]])])
           = Inr (Defined (JString missing_notes_text))"
    by (simp add: completion_content_def opt_chain_def get_prop_def index0_def js_def)
  have "extract_content (Defined (JString missing_notes_text)) = Inr missing_notes_object"
    by (rule extract_content_parsed[OF match_braces_missing_notes JSON_parse_missing_notes])
  then show ?thesis
    by (simp add: read_completion_def JSON_parse_completion_missing_notes c)
qed

lemma small_image_size: "\<not> base64SizeKB small_image > 4500"
  by (simp add: too_large_iff small_image_def js_def)

text \<open>
  Claim C3, as the code has it. The extractor checks no field: whenever the brace span
  of the text parses as JSON, the value parsed is returned as the result, whatever
  members it has or lacks. No failure for missing fields exists.
\<close>

theorem extract_content_unvalidated:
  assumes "match_braces text = Some jsonMatch" and "JSON_parse jsonMatch = Some v"
  shows "extract_content (Defined (JString text)) = Inr v"
  using assms by (rule extract_content_parsed)

theorem extract_content_unvalidated_witness:
  "match_braces missing_notes_text = Some missing_notes_text
   \<and> JSON_parse missing_notes_text = Some missing_notes_object
   \<and> extract_content (Defined (JString missing_notes_text)) = Inr missing_notes_object"
  using extract_content_unvalidated[OF match_braces_missing_notes JSON_parse_missing_notes]
    match_braces_missing_notes JSON_parse_missing_notes
  by simp

text \<open>
  The claim as the specification states it fails on valid JSON without \<open>notes\<close>: the
  object is returned by the extractor, and \<open>POST /api/analyze\<close> answers 200 with it.
\<close>

theorem missing_notes_is_returned:
  "get_prop (js ''notes'') missing_notes_object = Undefined
   \<and> JSON_parse missing_notes_text = Some missing_notes_object
   \<and> extract_content (Defined (JString missing_notes_text)) = Inr missing_notes_object
   \<and> post_analyze sample_key (replying missing_notes_text) (Defined body_with_imageBase64) [] =
       (\<lparr>code = 200, payload = JsonBody missing_notes_object\<rparr>,
        [routellm_request sample_key small_image])"
proof -
  let ?rq = "routellm_request sample_key small_image"
  let ?resp = "\<lparr>status = 200, body = completion_body missing_notes_text\<rparr>"
  have a: "get_prop (js ''notes'') missing_notes_object = Undefined"
    by (simp add: get_prop_def missing_notes_object_def js_def)
  have b: "extract_content (Defined (JString missing_notes_text)) = Inr missing_notes_object"
    by (rule extract_content_parsed[OF match_braces_missing_notes JSON_parse_missing_notes])
  have f: "fetchWithRetry (replying missing_notes_text) ?rq 2 15000 [] = (Inr ?resp, [?rq])"
    unfolding fetchWithRetry_def
    by (simp add: fetchLoop_resolved settle_def replying_def answers_def)
  have run: "analyzeWithAbacus sample_key (replying missing_notes_text) (JString small_image) []
             = (Inr missing_notes_object, [?rq])"
    by (simp add: analyzeWithAbacus_def configured_sample_key small_image_size f ok_def
        read_completion_missing_notes)
  have field: "get_prop (js ''imageBase64'') (JObject [(js ''imageBase64'', JString small_image)])
               = Defined (JString small_image)"
    by (simp add: get_prop_def)
  have "small_image \<noteq> []" by (simp add: small_image_def js_def)
  then have c: "post_analyze sample_key (replying missing_notes_text) (Defined body_with_imageBase64) [] =
       (\<lparr>code = 200, payload = JsonBody missing_notes_object\<rparr>, [?rq])"
    by (simp add: post_analyze_def field run body_with_imageBase64_def)
  show ?thesis using a b c JSON_parse_missing_notes by simp
qed

text \<open>
  Claim C4, as the code has it. The span matched runs from the first \<open>{\<close> of the
  text to its last \<open>}\<close>: leading prose without \<open>{\<close> and trailing prose without
  \<open>}\<close> are tolerated, and then the span is the object between them. For the
  example of the specification the embedded object is returned.
\<close>

theorem match_braces_first_to_last:
  "(of_char CHR ''{'' \<notin> set pre \<and> of_char CHR ''}'' \<notin> set post \<longrightarrow>
      match_braces (pre @ [of_char CHR ''{''] @ mid @ [of_char CHR ''}''] @ post)
        = Some ([of_char CHR ''{''] @ mid @ [of_char CHR ''}'']))
   \<and> match_braces example_text = Some example_json_text
   \<and> extract_content (Defined (JString example_text)) = Inr example_object"
  using match_braces_span[of pre post mid] match_braces_example
    extract_content_parsed[OF match_braces_example JSON_parse_example]
  by blast

theorem match_braces_first_to_last_witness:
  "of_char CHR ''{'' \<notin> set (js ''Here you go: '')
   \<and> of_char CHR ''}'' \<notin> set (js '' Enjoy your coffee!'')
   \<and> match_braces (js ''Here you go: {\"notes\":\"x\"} Enjoy your coffee!'') = Some (js ''{\"notes\":\"x\"}'')"
proof -
  have a: "of_char CHR ''{'' \<notin> set (js ''Here you go: '')"
    and b: "of_char CHR ''}'' \<notin> set (js '' Enjoy your coffee!'')"
    by (simp_all add: js_def)
  have "match_braces (js ''Here you go: '' @ [of_char CHR ''{''] @ js ''\"notes\":\"x\"''
          @ [of_char CHR ''}''] @ js '' Enjoy your coffee!'')
        = Some ([of_char CHR ''{''] @ js ''\"notes\":\"x\"'' @ [of_char CHR ''}''])"
    using match_braces_first_to_last[of "js ''Here you go: ''" "js '' Enjoy your coffee!''"
        "js ''\"notes\":\"x\"''"] a b
    by blast
  then show ?thesis using a b by (simp add: js_def)
qed

text \<open>
  The claim as the specification states it fails when the trailing prose has a brace:
  the span is not the first balanced object, and the extraction fails.
\<close>

theorem second_object_breaks_extraction:
  "two_objects_text = js ''{\"a\":1}'' @ js '' or {\"b\":2}''
   \<and> JSON_parse (js ''{\"a\":1}'') = Some (JObject [(js ''a'', JNumber (js ''1''))])
   \<and> match_braces two_objects_text = Some two_objects_text
   \<and> two_objects_text \<noteq> js ''{\"a\":1}''
   \<and> extract_content (Defined (JString two_objects_text)) = Inl SyntaxError"
proof -
  have a: "JSON_parse (js ''{\"a\":1}'') = Some (JObject [(js ''a'', JNumber (js ''1''))])"
    by (simp add: json_eval)
  have m: "match_braces two_objects_text = Some two_objects_text"
    unfolding two_objects_text_def by (simp add: match_braces_def upto_last_rbrace_def js_def)
  have p: "JSON_parse two_objects_text = None"
    unfolding two_objects_text_def by (simp add: json_eval)
  have ne: "two_objects_text \<noteq> []" by (simp add: two_objects_text_def js_def)
  have e: "extract_content (Defined (JString two_objects_text)) = Inl SyntaxError"
    using ne by (simp add: extract_content_def m p)
  show ?thesis using a m e by (simp add: two_objects_text_def js_def)
qed

section \<open>The request body\<close>




section \<open>The history store\<close>

lemma take_append_take: "take n (xs @ take n ys) = take n (xs @ ys)"
  by (simp add: min_def)

lemma handleSaveToHistory_history:
  "stored_history (handleSaveToHistory p stored) = take 50 (newItem p # stored_history stored)"
  by (simp add: handleSaveToHistory_def stored_history_def)

lemma saves_history:
  "stored_history (saves ps stored) =
     (if ps = [] then stored_history stored
      else take 50 (rev (map newItem ps) @ stored_history stored))"
proof (induction ps arbitrary: stored)
  case Nil
  then show ?case by simp
next
  case (Cons p ps)
  show ?case
  proof (cases "ps = []")
    case True
    then show ?thesis by (simp add: handleSaveToHistory_history)
  next
    case False
    then have "stored_history (saves (p # ps) stored) =
               take 50 (rev (map newItem ps) @ take 50 (newItem p # stored_history stored))"
      using Cons.IH[of "handleSaveToHistory p stored"] by (simp add: handleSaveToHistory_history)
    also have "\<dots> = take 50 (rev (map newItem ps) @ newItem p # stored_history stored)"
      by (rule take_append_take)
    finally show ?thesis by simp
  qed
qed

lemma saves_written: "ps \<noteq> [] \<Longrightarrow> saves ps stored = Some (stored_history (saves ps stored))"
proof (induction ps arbitrary: stored)
  case Nil
  then show ?case by simp
next
  case (Cons p ps)
  show ?case
  proof (cases "ps = []")
    case True
    then show ?thesis by (simp add: handleSaveToHistory_def stored_history_def)
  next
    case False
    then show ?thesis using Cons.IH[of "handleSaveToHistory p stored"] by simp
  qed
qed

lemma digit_unat:
  assumes "k < 10"
  shows "unat (of_char CHR ''0'' + of_nat k :: 16 word) - 48 = k"
proof -
  from assms consider "k = 0" | "k = 1" | "k = 2" | "k = 3" | "k = 4"
    | "k = 5" | "k = 6" | "k = 7" | "k = 8" | "k = 9"
    by atomize_elim arith
  then show ?thesis by cases simp_all
qed

lemma digits_value_snoc:
  "digits_value (ds @ [d]) = digits_value ds * 10 + (unat d - 48)"
  by (simp add: digits_value_def)

lemma digits_value_show_nat: "digits_value (show_nat n) = n"
proof (induction n rule: show_nat.induct)
  case (1 n)
  show ?case
  proof (cases "n < 10")
    case True
    then have "show_nat n = [of_char CHR ''0'' + of_nat n]"
      by (subst show_nat.simps) simp
    then show ?thesis using digit_unat[OF True] by (simp add: digits_value_def)
  next
    case False
    then have "show_nat n = show_nat (n div 10) @ [of_char CHR ''0'' + of_nat (n mod 10)]"
      by (subst show_nat.simps) simp
    then have "digits_value (show_nat n) = digits_value (show_nat (n div 10)) * 10 + n mod 10"
      using digit_unat[of "n mod 10"] by (simp add: digits_value_snoc)
    then show ?thesis using 1[OF False] by simp
  qed
qed

lemma inj_show_nat: "inj show_nat"
  by (rule inj_on_inverseI[where g = digits_value]) (rule digits_value_show_nat)

lemma id_newItem: "id' (newItem p) = show_nat (now p)"
  by (simp add: newItem_def)

text \<open>
  Claim C8. One save stores the new entry in front of the stored entries, cut to the
  first 50. After any non-empty sequence of saves, from any stored collection, the
  store holds the first 50 of: the entries saved, newest first, followed by the
  entries stored before; so it never holds more than 50. After 51 saves from an empty
  collection it holds exactly the 50 entries saved last, newest first. (Nothing here
  needs the ids to be distinct.)
\<close>

theorem saves_capped:
  "handleSaveToHistory p stored = Some (take 50 (newItem p # stored_history stored))
   \<and> (ps \<noteq> [] \<longrightarrow>
        saves ps stored = Some (take 50 (rev (map newItem ps) @ stored_history stored))
        \<and> length (stored_history (saves ps stored)) \<le> 50)
   \<and> (length ps = 51 \<and> stored_history stored = [] \<longrightarrow>
        saves ps stored = Some (rev (map newItem (tl ps)))
        \<and> length (rev (map newItem (tl ps))) = 50)"
proof (intro conjI impI)
  show "handleSaveToHistory p stored = Some (take 50 (newItem p # stored_history stored))"
    by (simp add: handleSaveToHistory_def)
next
  assume "ps \<noteq> []"
  then show "saves ps stored = Some (take 50 (rev (map newItem ps) @ stored_history stored))"
    using saves_written[of ps stored] saves_history[of ps stored] by simp
next
  assume "ps \<noteq> []"
  then show "length (stored_history (saves ps stored)) \<le> 50"
    using saves_history[of ps stored] by simp
next
  assume a: "length ps = 51 \<and> stored_history stored = []"
  then have ne: "ps \<noteq> []" by auto
  have "take 50 (rev (map newItem ps)) = rev (drop 1 (map newItem ps))"
    using a by (simp add: take_rev)
  also have "\<dots> = rev (map newItem (tl ps))"
    by (simp add: drop_Suc map_tl)
  finally show "saves ps stored = Some (rev (map newItem (tl ps)))"
    using saves_written[OF ne, of stored] saves_history[of ps stored] ne a by simp
next
  assume "length ps = 51 \<and> stored_history stored = []"
  then show "length (rev (map newItem (tl ps))) = 50" by simp
qed

theorem saves_capped_witness:
  "length (map press [1..<52]) = 51
   \<and> stored_history None = []
   \<and> saves (map press [1..<52]) None = Some (rev (map newItem (tl (map press [1..<52]))))
   \<and> length (rev (map newItem (tl (map press [1..<52])))) = 50
   \<and> saves [press 7] (Some [newItem (press 3)]) = Some [newItem (press 7), newItem (press 3)]"
proof -
  have a: "length (map press [1..<52]) = 51" by simp
  have b: "stored_history None = []" by (simp add: stored_history_def)
  have c: "stored_history (Some [newItem (press 3)]) = [newItem (press 3)]"
    by (simp add: stored_history_def)
  have d: "saves (map press [1..<52]) None = Some (rev (map newItem (tl (map press [1..<52]))))"
    using saves_capped[of "press 1" None "map press [1..<52]"] a b by blast
  have e: "length (rev (map newItem (tl (map press [1..<52])))) = 50"
    using saves_capped[of "press 1" None "map press [1..<52]"] a b by blast
  have "[press 7] \<noteq> []" by simp
  then have "saves [press 7] (Some [newItem (press 3)]) =
        Some (take 50 (rev (map newItem [press 7]) @ stored_history (Some [newItem (press 3)])))"
    using saves_capped[of "press 7" "Some [newItem (press 3)]" "[press 7]"] by blast
  then have f: "saves [press 7] (Some [newItem (press 3)]) = Some [newItem (press 7), newItem (press 3)]"
    unfolding c by simp
  show ?thesis using a b d e f by blast
qed

text \<open>
  Claim C9, as the code has it. The id of an entry is the clock reading of its save,
  and nothing compares it with the ids stored. When the clock readings of the saves
  are pairwise distinct, the ids stored before are pairwise distinct and none of them
  is the id of a new entry, the ids of the stored collection are pairwise distinct.
  For every sequence of saves, with ids distinct or not, the collection is in
  insertion order, newest first: the entries saved, last one first, then the entries
  stored before in the order they had, cut to the first 50.
\<close>

theorem saves_distinct_ids:
  "(distinct (map now ps)
    \<and> distinct (map id' (stored_history stored))
    \<and> (\<forall>p \<in> set ps. show_nat (now p) \<notin> id' ` set (stored_history stored))
      \<longrightarrow> distinct (map id' (stored_history (saves ps stored))))
   \<and> stored_history (saves ps stored) =
         (if ps = [] then stored_history stored
          else take 50 (rev (map newItem ps) @ stored_history stored))"
proof (intro conjI impI)
  assume a: "distinct (map now ps)
    \<and> distinct (map id' (stored_history stored))
    \<and> (\<forall>p \<in> set ps. show_nat (now p) \<notin> id' ` set (stored_history stored))"
  have ids: "map id' (rev (map newItem ps) @ stored_history stored) =
             rev (map show_nat (map now ps)) @ map id' (stored_history stored)"
    by (simp add: id_newItem rev_map comp_def)
  have "distinct (map show_nat (map now ps))"
    using a inj_show_nat by (simp add: distinct_map inj_on_def inj_def)
  moreover have "set (map show_nat (map now ps)) \<inter> set (map id' (stored_history stored)) = {}"
    using a by auto
  ultimately have "distinct (map id' (rev (map newItem ps) @ stored_history stored))"
    unfolding ids using a by simp
  then have "distinct (map id' (take 50 (rev (map newItem ps) @ stored_history stored)))"
    by (simp only: take_map[symmetric] distinct_take)
  then show "distinct (map id' (stored_history (saves ps stored)))"
    using a by (simp add: saves_history)
next
  show "stored_history (saves ps stored) =
         (if ps = [] then stored_history stored
          else take 50 (rev (map newItem ps) @ stored_history stored))"
    by (rule saves_history)
qed

theorem saves_distinct_ids_witness:
  "distinct (map now [press 3, press 7])
   \<and> distinct (map id' (stored_history (Some [newItem (press 2), newItem (press 1)])))
   \<and> show_nat (now (press 3)) \<notin> id' ` set (stored_history (Some [newItem (press 2), newItem (press 1)]))
   \<and> show_nat (now (press 7)) \<notin> id' ` set (stored_history (Some [newItem (press 2), newItem (press 1)]))
   \<and> distinct (map id'
         (stored_history (saves [press 3, press 7] (Some [newItem (press 2), newItem (press 1)]))))
   \<and> stored_history (saves [press 3, press 7] (Some [newItem (press 2), newItem (press 1)]))
       = [newItem (press 7), newItem (press 3), newItem (press 2), newItem (press 1)]
   \<and> map id' (stored_history (saves [press 3, press 7] (Some [newItem (press 2), newItem (press 1)])))
       = [js ''7'', js ''3'', js ''2'', js ''1'']
   \<and> stored_history (saves [press 5, press 5] (Some [newItem (press 2), newItem (press 1)]))
       = [newItem (press 5), newItem (press 5), newItem (press 2), newItem (press 1)]"
proof -
  let ?old = "Some [newItem (press 2), newItem (press 1)]"
  have h: "stored_history ?old = [newItem (press 2), newItem (press 1)]"
    by (simp add: stored_history_def)
  have a: "distinct (map now [press 3, press 7])" by (simp add: press_def)
  have b: "distinct (map id' (stored_history ?old))"
    unfolding h by (simp add: id_newItem press_def show_nat.simps)
  have c3: "show_nat (now (press 3)) \<notin> id' ` set (stored_history ?old)"
    and c7: "show_nat (now (press 7)) \<notin> id' ` set (stored_history ?old)"
    unfolding h by (simp_all add: id_newItem press_def show_nat.simps)
  have c: "\<forall>p \<in> set [press 3, press 7]. show_nat (now p) \<notin> id' ` set (stored_history ?old)"
    using c3 c7 by simp
  have d: "distinct (map id' (stored_history (saves [press 3, press 7] ?old)))"
    using saves_distinct_ids[of "[press 3, press 7]" ?old] a b c by blast
  have "stored_history (saves [press 3, press 7] ?old) =
        (if [press 3, press 7] = [] then stored_history ?old
         else take 50 (rev (map newItem [press 3, press 7]) @ stored_history ?old))"
    using saves_distinct_ids[of "[press 3, press 7]" ?old] by blast
  then have e: "stored_history (saves [press 3, press 7] ?old)
       = [newItem (press 7), newItem (press 3), newItem (press 2), newItem (press 1)]"
    unfolding h by simp
  have f: "map id' [newItem (press 7), newItem (press 3), newItem (press 2), newItem (press 1)]
       = [js ''7'', js ''3'', js ''2'', js ''1'']"
    by (simp add: id_newItem press_def show_nat.simps js_def)
  have "stored_history (saves [press 5, press 5] ?old) =
        (if [press 5, press 5] = [] then stored_history ?old
         else take 50 (rev (map newItem [press 5, press 5]) @ stored_history ?old))"
    using saves_distinct_ids[of "[press 5, press 5]" ?old] by blast
  then have g: "stored_history (saves [press 5, press 5] ?old)
       = [newItem (press 5), newItem (press 5), newItem (press 2), newItem (press 1)]"
    unfolding h by simp
  show ?thesis using a b c3 c7 d e f g by (simp only: simp_thms)
qed

text \<open>
  The claim as the specification states it fails for two saves that read the same
  clock value: both entries get the same id, and both are stored.
\<close>

theorem same_reading_same_id:
  "saves [press 5, press 5] None = Some [newItem (press 5), newItem (press 5)]
   \<and> map id' (stored_history (saves [press 5, press 5] None)) = [js ''5'', js ''5'']
   \<and> \<not> distinct (map id' (stored_history (saves [press 5, press 5] None)))"
  by (simp add: handleSaveToHistory_def stored_history_def id_newItem press_def
      show_nat.simps js_def)

section \<open>The two versions of the analysis\<close>

lemma routes_ts_one_call:
  assumes "configured apiKey"
  shows "snd (analyzeWithAbacus_routes_ts apiKey net (JString s) sent)
         = sent @ [abacus_v0_request apiKey s]"
  using assms
  by (cases "outcome (net (length sent))")
     (simp_all add: analyzeWithAbacus_routes_ts_def fetch_def)

lemma routes_ts_at_most_one_call:
  "length (snd (analyzeWithAbacus_routes_ts apiKey net v sent)) \<le> Suc (length sent)"
proof (cases "configured apiKey")
  case False
  then show ?thesis by (simp add: analyzeWithAbacus_routes_ts_def)
next
  case True
  show ?thesis
  proof (cases v)
    case (JString s)
    then show ?thesis using routes_ts_one_call[OF True, of net s sent] by simp
  qed (simp_all add: analyzeWithAbacus_routes_ts_def True)
qed

lemma versions_differ: "analyzeWithAbacus_routes_ts \<noteq> analyzeWithAbacus"
proof
  assume eq: "analyzeWithAbacus_routes_ts = analyzeWithAbacus"
  have "snd (analyzeWithAbacus_routes_ts sample_key healthy (JString oversized) [])
        = [abacus_v0_request sample_key oversized]"
    using routes_ts_one_call[OF configured_sample_key, of healthy oversized "[]"] by simp
  moreover have "snd (analyzeWithAbacus sample_key healthy (JString oversized) []) = []"
    by (simp add: analyzeWithAbacus_def base64SizeKB_oversized)
  ultimately show False using eq by simp
qed

text \<open>
  Claim C10, as the code has it. \<open>analyzeWithAbacus\<close> of src/server/routes.ts never
  issues more than one request. When the API key is configured it issues exactly one
  for every string payload, of whatever size (there is no size guard), and a rejected
  fetch is thrown on as it is, with no second attempt. The two versions of the
  function are different functions.
\<close>

theorem routes_ts_no_guard_no_retry:
  "length (snd (analyzeWithAbacus_routes_ts apiKey net v sent)) \<le> Suc (length sent)
   \<and> (configured apiKey \<longrightarrow>
        snd (analyzeWithAbacus_routes_ts apiKey net (JString s) sent)
          = sent @ [abacus_v0_request apiKey s])
   \<and> (configured apiKey \<and> outcome (net (length sent)) = Rejected err \<longrightarrow>
        analyzeWithAbacus_routes_ts apiKey net (JString s) sent
          = (Inl err, sent @ [abacus_v0_request apiKey s]))
   \<and> analyzeWithAbacus_routes_ts \<noteq> analyzeWithAbacus"
  using routes_ts_at_most_one_call[of apiKey net v sent] routes_ts_one_call[of apiKey net s sent]
    versions_differ
  by (simp add: analyzeWithAbacus_routes_ts_def fetch_def)

theorem routes_ts_no_guard_no_retry_witness:
  "configured sample_key
   \<and> base64SizeKB oversized > 4500
   \<and> outcome (down (length [])) = Rejected (NetworkError (js ''fetch failed''))
   \<and> analyzeWithAbacus_routes_ts sample_key down (JString oversized) []
       = (Inl (NetworkError (js ''fetch failed'')), [abacus_v0_request sample_key oversized])
   \<and> snd (analyzeWithAbacus sample_key down (JString oversized) []) = []"
proof -
  have o: "outcome (down (length [])) = Rejected (NetworkError (js ''fetch failed''))"
    by (simp add: down_def refused_def)
  have n: "snd (analyzeWithAbacus sample_key down (JString oversized) []) = []"
    by (simp add: analyzeWithAbacus_def base64SizeKB_oversized)
  show ?thesis
    using routes_ts_no_guard_no_retry[of sample_key down _ "[]" oversized
        "NetworkError (js ''fetch failed'')"] o n configured_sample_key
    by (simp add: base64SizeKB_oversized)
qed

text \<open>
  The claim as stated fails when no API key is configured: a non-empty payload is then
  refused before any request is made.
\<close>

theorem routes_ts_unconfigured_no_call:
  "small_image \<noteq> []
   \<and> analyzeWithAbacus_routes_ts None healthy (JString small_image) []
       = (Inl (Error (js ''ABACUS_API_KEY is not configured'')), [])"
  by (simp add: analyzeWithAbacus_routes_ts_def configured_def small_image_def js_def)

end
